theory Spec2Isabelle
  imports Main
begin

section \<open>The WebViewBridge component (index.android.js)\<close>

text \<open>
  The component is a React class with a three-valued display state, a listener on the
  platform's device event emitter, four commands sent to the native view and a render
  method. Host callbacks, the native view, the emitter and the console are outside the
  file: a call into any of them is recorded as an effect in a trace, in the order in
  which the source makes it.
\<close>

subsection \<open>Constants of the module\<close>

definition RCT_WEBVIEWBRIDGE_REF :: string where
  "RCT_WEBVIEWBRIDGE_REF = ''webviewbridge''"

text \<open>
  \<^verbatim>\<open>keyMirror({IDLE: null, LOADING: null, ERROR: null})\<close> yields an object whose
  values are the key names, so a view state is a string and the three states are three
  string constants. The render method compares the state with them by \<^verbatim>\<open>===\<close>.
\<close>

definition IDLE :: string where "IDLE = ''IDLE''"
definition LOADING :: string where "LOADING = ''LOADING''"
definition ERROR :: string where "ERROR = ''ERROR''"

text \<open>A style is an opaque host value or a sheet of numeric entries.\<close>

datatype style = StyleSheet "(string \<times> int) list" | HostStyle nat

definition styles_container :: style where
  "styles_container = StyleSheet [(''flex'', 1)]"

definition styles_hidden :: style where
  "styles_hidden = StyleSheet [(''height'', 0), (''flex'', 0)]"

subsection \<open>Events, props and state\<close>

text \<open>
  The payload of a native event. The load events carry the navigation fields named in
  the comment above \<^verbatim>\<open>updateNavigationState\<close>; a load error also carries the
  fields the render method reads; a content change carries a bridge message.
\<close>

record nativeEvent =
  url :: string
  title :: string
  loading :: bool
  canGoBack :: bool
  canGoForward :: bool
  domain :: string
  code :: int
  description :: string
  message :: string

text \<open>
  A load event is a React synthetic event (the source calls \<^verbatim>\<open>event.persist()\<close> on
  it) and the handlers read \<^verbatim>\<open>event.nativeEvent\<close> unguarded: the platform always
  supplies the payload. \<^verbatim>\<open>onMessage\<close> tests \<^verbatim>\<open>event.nativeEvent != null\<close>, so its
  argument has an optional payload. The body of a device event is an object with a
  \<^verbatim>\<open>message\<close> field.
\<close>

datatype event = Event (nativeEvent: nativeEvent)

datatype change_event = ChangeEvent (change_nativeEvent: "nativeEvent option")

datatype body = Body (body_message: string)

text \<open>A function supplied by the host, known only by its identity.\<close>

datatype hostfn = HostFn nat

datatype source = Uri string | Asset nat

text \<open>
  The props follow the declared prop types: a callback is absent or a function, a flag
  is absent or a boolean. \<^verbatim>\<open>None\<close> is a prop the host omitted.
\<close>

record props =
  onBridgeMessage :: "hostfn option"
  onLoadStart :: "hostfn option"
  onLoad :: "hostfn option"
  onLoadEnd :: "hostfn option"
  onError :: "hostfn option"
  onNavigationStateChange :: "hostfn option"
  renderLoading :: "hostfn option"
  renderError :: "hostfn option"
  startInLoadingState :: "bool option"
  javaScriptEnabled :: "bool option"
  domStorageEnabled :: "bool option"
  javaScriptEnabledAndroid :: "bool option"
  domStorageEnabledAndroid :: "bool option"
  style :: "style option"
  source :: "source option"

text \<open>The component's state, as the constructor lays it out.\<close>

record state =
  viewState :: string
  lastErrorEvent :: "nativeEvent option"
  state_startInLoadingState :: bool

subsection \<open>Effects\<close>

datatype jsarg =
    EventArg event
  | NativeEventArg nativeEvent
  | StringArg string
  | NumberArg int

datatype command = CmdGoForward | CmdGoBack | CmdReload | CmdSendToBridge

text \<open>
  \<^verbatim>\<open>Invoke f args\<close> is a call of the host function \<^verbatim>\<open>f\<close>;
  \<^verbatim>\<open>DispatchViewManagerCommand h c args\<close> is the call of
  \<^verbatim>\<open>UIManager.dispatchViewManagerCommand\<close> with the handle (null when the ref is
  not attached), the command and its arguments (null or an array).
\<close>

datatype effect =
    Invoke hostfn "jsarg list"
  | ConsoleWarn string
  | ConsoleError string
  | DispatchViewManagerCommand "nat option" command "jsarg list option"

datatype error = TypeError

subsection \<open>The instance and its surroundings\<close>

text \<open>
  \<^verbatim>\<open>listeners\<close> is the registry of \<^verbatim>\<open>DeviceEventEmitter\<close> as far as this
  instance is concerned: one entry, the event name, for every \<^verbatim>\<open>addListener\<close> call
  that registered the instance's closure, in registration order. \<^verbatim>\<open>refs\<close> maps a
  ref name to the node handle of the attached native view.
\<close>

record world =
  props :: props
  state :: state
  listeners :: "string list"
  refs :: "string \<rightharpoonup> nat"
  mounted :: bool
  trace :: "effect list"

subsection \<open>Helpers for the source's idioms\<close>

text \<open>A flag in a condition (\<^verbatim>\<open>if (this.props.flag)\<close>): only a present \<^verbatim>\<open>true\<close> is truthy.\<close>

definition truthy :: "bool option \<Rightarrow> bool" where
  "truthy b = (case b of None \<Rightarrow> False | Some v \<Rightarrow> v)"

text \<open>\<^verbatim>\<open>cb && cb(args)\<close>: the call is made when the callback is there, skipped otherwise.\<close>

definition invoke :: "hostfn option \<Rightarrow> jsarg list \<Rightarrow> effect list" where
  "invoke cb args = (case cb of None \<Rightarrow> [] | Some f \<Rightarrow> [Invoke f args])"

definition emitEffects :: "effect list \<Rightarrow> world \<Rightarrow> world" where
  "emitEffects es w = w\<lparr>trace := trace w @ es\<rparr>"

subsection \<open>Construction, mounting, unmounting\<close>

definition constructor :: "props \<Rightarrow> world" where
  "constructor p =
     \<lparr>props = p,
      state = \<lparr>viewState = IDLE, lastErrorEvent = None, state_startInLoadingState = True\<rparr>,
      listeners = [],
      refs = Map.empty,
      mounted = False,
      trace = []\<rparr>"

text \<open>
  The closure given to \<^verbatim>\<open>DeviceEventEmitter.addListener\<close>. It reads
  \<^verbatim>\<open>this.props\<close> when it runs and tests nothing else.
\<close>

definition bridgeMessageListener :: "body \<Rightarrow> world \<Rightarrow> world" where
  "bridgeMessageListener b w =
     (let onBridgeMessage' = onBridgeMessage (props w);
          message' = body_message b
      in case onBridgeMessage' of
           None \<Rightarrow> w
         | Some f \<Rightarrow> emitEffects [Invoke f [StringArg message']] w)"

definition componentWillMount :: "world \<Rightarrow> world" where
  "componentWillMount w =
     (let w1 = w\<lparr>listeners := listeners w @ [''webViewBridgeMessage'']\<rparr>
      in if truthy (startInLoadingState (props w1))
         then w1\<lparr>state := (state w1)\<lparr>viewState := LOADING\<rparr>\<rparr>
         else w1)"

text \<open>
  After the first render React attaches the ref of the native view, whose node handle
  the platform chooses.
\<close>

definition attachRef :: "nat \<Rightarrow> world \<Rightarrow> world" where
  "attachRef h w = w\<lparr>refs := (refs w)(RCT_WEBVIEWBRIDGE_REF \<mapsto> h), mounted := True\<rparr>"

text \<open>
  The class declares no \<^verbatim>\<open>componentWillUnmount\<close> and keeps no handle on the
  subscription that \<^verbatim>\<open>addListener\<close> returns: unmounting runs no code of the
  component. React detaches the refs; the emitter's registry is not touched.
\<close>

definition unmount :: "world \<Rightarrow> world" where
  "unmount w = w\<lparr>refs := Map.empty, mounted := False\<rparr>"

text \<open>
  The platform's \<^verbatim>\<open>DeviceEventEmitter.emit(name, body)\<close>: every listener registered
  under the name runs, in registration order.
\<close>

fun deliver :: "string \<Rightarrow> body \<Rightarrow> string list \<Rightarrow> world \<Rightarrow> world" where
  "deliver name b [] w = w"
| "deliver name b (n # ns) w =
     deliver name b ns (if n = name then bridgeMessageListener b w else w)"

definition emit :: "string \<Rightarrow> body \<Rightarrow> world \<Rightarrow> world" where
  "emit name b w = deliver name b (listeners w) w"

subsection \<open>The content-changed path and the commands\<close>

definition onMessage :: "change_event \<Rightarrow> world \<Rightarrow> world" where
  "onMessage ev w =
     (case onBridgeMessage (props w) of
        None \<Rightarrow> w
      | Some f \<Rightarrow>
          (case change_nativeEvent ev of
             None \<Rightarrow> w
           | Some ne \<Rightarrow> emitEffects [Invoke f [StringArg (message ne)]] w))"

definition getWebViewBridgeHandle :: "world \<Rightarrow> nat option" where
  "getWebViewBridgeHandle w = refs w RCT_WEBVIEWBRIDGE_REF"

definition goForward :: "world \<Rightarrow> world" where
  "goForward w =
     emitEffects [DispatchViewManagerCommand (getWebViewBridgeHandle w) CmdGoForward None] w"

definition goBack :: "world \<Rightarrow> world" where
  "goBack w =
     emitEffects [DispatchViewManagerCommand (getWebViewBridgeHandle w) CmdGoBack None] w"

definition reload :: "world \<Rightarrow> world" where
  "reload w =
     emitEffects [DispatchViewManagerCommand (getWebViewBridgeHandle w) CmdReload None] w"

definition sendToBridge :: "string \<Rightarrow> world \<Rightarrow> world" where
  "sendToBridge m w =
     emitEffects
       [DispatchViewManagerCommand (getWebViewBridgeHandle w) CmdSendToBridge
          (Some [StringArg m])] w"

subsection \<open>The load handlers\<close>

text \<open>
  Each handler makes its calls in the order of the source. \<^verbatim>\<open>setState\<close> merges the
  given fields into the state; the update is in place when the handler is done.
  \<^verbatim>\<open>event.persist()\<close> only keeps the event object alive and has no effect here.
\<close>

definition updateNavigationState :: "event \<Rightarrow> world \<Rightarrow> world" where
  "updateNavigationState ev w =
     emitEffects (invoke (onNavigationStateChange (props w)) [NativeEventArg (nativeEvent ev)]) w"

definition onLoadingStart :: "event \<Rightarrow> world \<Rightarrow> world" where
  "onLoadingStart ev w =
     updateNavigationState ev (emitEffects (invoke (onLoadStart (props w)) [EventArg ev]) w)"

definition onLoadingError :: "event \<Rightarrow> world \<Rightarrow> world" where
  "onLoadingError ev w =
     (let w1 = emitEffects (invoke (onError (props w)) [EventArg ev]) w;
          w2 = emitEffects (invoke (onLoadEnd (props w1)) [EventArg ev]) w1
      in w2\<lparr>state := (state w2)\<lparr>lastErrorEvent := Some (nativeEvent ev), viewState := ERROR\<rparr>\<rparr>)"

definition onLoadingFinish :: "event \<Rightarrow> world \<Rightarrow> world" where
  "onLoadingFinish ev w =
     (let w1 = emitEffects (invoke (onLoad (props w)) [EventArg ev]) w;
          w2 = emitEffects (invoke (onLoadEnd (props w1)) [EventArg ev]) w1;
          w3 = w2\<lparr>state := (state w2)\<lparr>viewState := IDLE\<rparr>\<rparr>
      in updateNavigationState ev w3)"

subsection \<open>Rendering\<close>

text \<open>
  What the second child of the returned view is: nothing (\<^verbatim>\<open>null\<close> or
  \<^verbatim>\<open>undefined\<close>), or whatever a host renderer returned for a call.
\<close>

datatype other_view = NoView | HostView hostfn "jsarg list"

text \<open>
  A value of a prop. \<^verbatim>\<open>ResolvedSource s\<close> is what the library's
  \<^verbatim>\<open>resolveAssetSource\<close> returns for \<^verbatim>\<open>s\<close>.
\<close>

datatype attr =
    FlagAttr bool
  | FnAttr hostfn
  | StyleAttr style
  | StylesAttr "style option list"
  | SourceAttr source
  | ResolvedSource "source option"
  | StringAttr string
  | BoundMethod string

record element =
  view_style :: style
  webView :: "string \<rightharpoonup> attr"
  otherView :: other_view

text \<open>The own properties of \<^verbatim>\<open>this.props\<close>: one entry for every prop the host supplied.\<close>

definition entry :: "string \<Rightarrow> ('a \<Rightarrow> attr) \<Rightarrow> 'a option \<Rightarrow> (string \<times> attr) list" where
  "entry k c v = (case v of None \<Rightarrow> [] | Some x \<Rightarrow> [(k, c x)])"

definition ownProps :: "props \<Rightarrow> (string \<times> attr) list" where
  "ownProps p =
     entry ''onBridgeMessage'' FnAttr (onBridgeMessage p) @
     entry ''onLoadStart'' FnAttr (onLoadStart p) @
     entry ''onLoad'' FnAttr (onLoad p) @
     entry ''onLoadEnd'' FnAttr (onLoadEnd p) @
     entry ''onError'' FnAttr (onError p) @
     entry ''onNavigationStateChange'' FnAttr (onNavigationStateChange p) @
     entry ''renderLoading'' FnAttr (renderLoading p) @
     entry ''renderError'' FnAttr (renderError p) @
     entry ''startInLoadingState'' FlagAttr (startInLoadingState p) @
     entry ''javaScriptEnabled'' FlagAttr (javaScriptEnabled p) @
     entry ''domStorageEnabled'' FlagAttr (domStorageEnabled p) @
     entry ''javaScriptEnabledAndroid'' FlagAttr (javaScriptEnabledAndroid p) @
     entry ''domStorageEnabledAndroid'' FlagAttr (domStorageEnabledAndroid p) @
     entry ''style'' StyleAttr (style p) @
     entry ''source'' SourceAttr (source p)"

text \<open>
  The first branch of \<^verbatim>\<open>render\<close>. In the ERROR branch the arguments of
  \<^verbatim>\<open>renderError\<close> are evaluated only when the renderer is there; reading a field
  of a null \<^verbatim>\<open>lastErrorEvent\<close> raises. In the last branch the source logs
  \<^verbatim>\<open>this.state.loading\<close>, a field the state does not have.
\<close>

definition renderOtherView :: "world \<Rightarrow> error + (other_view \<times> effect list)" where
  "renderOtherView w =
     (if viewState (state w) = LOADING then
        (case renderLoading (props w) of
           None \<Rightarrow> Inr (NoView, [])
         | Some f \<Rightarrow> Inr (HostView f [], [Invoke f []]))
      else if viewState (state w) = ERROR then
        (case renderError (props w) of
           None \<Rightarrow> Inr (NoView, [])
         | Some f \<Rightarrow>
             (case lastErrorEvent (state w) of
                None \<Rightarrow> Inl TypeError
              | Some errorEvent \<Rightarrow>
                  Inr (HostView f [StringArg (domain errorEvent), NumberArg (code errorEvent),
                                   StringArg (description errorEvent)],
                       [Invoke f [StringArg (domain errorEvent), NumberArg (code errorEvent),
                                  StringArg (description errorEvent)]])))
      else if viewState (state w) \<noteq> IDLE then
        Inr (NoView, [ConsoleError ''RCTWebViewBridge invalid state encountered: undefined''])
      else Inr (NoView, []))"

definition webViewStyles :: "world \<Rightarrow> style option list" where
  "webViewStyles w =
     [Some styles_container, style (props w)] @
     (if viewState (state w) = LOADING \<or> viewState (state w) = ERROR
      then [Some styles_hidden] else [])"

text \<open>
  The two local variables \<^verbatim>\<open>javaScriptEnabled\<close> and \<^verbatim>\<open>domStorageEnabled\<close> of
  \<^verbatim>\<open>render\<close>, with the warnings logged while they are computed.
\<close>

definition deprecatedAliases :: "props \<Rightarrow> (bool option \<times> bool option) \<times> effect list" where
  "deprecatedAliases p =
     (let (javaScriptEnabled', es1) =
            (if truthy (javaScriptEnabledAndroid p)
             then (javaScriptEnabledAndroid p,
                   [ConsoleWarn
                      ''javaScriptEnabledAndroid is deprecated. Use javaScriptEnabled instead''])
             else (javaScriptEnabled p, []));
          (domStorageEnabled', es2) =
            (if truthy (domStorageEnabledAndroid p)
             then (domStorageEnabledAndroid p,
                   [ConsoleWarn
                      ''domStorageEnabledAndroid is deprecated. Use domStorageEnabled instead''])
             else (domStorageEnabled p, []))
      in ((javaScriptEnabled', domStorageEnabled'), es1 @ es2))"

text \<open>
  The props object of the \<^verbatim>\<open>RCTWebViewBridge\<close> element: the attributes in the order
  in which the JSX lists them, a later one replacing an earlier one of the same name.
  The spread is \<^verbatim>\<open>this.props\<close> without \<^verbatim>\<open>source\<close>.
\<close>

definition jsxAttributes :: "world \<Rightarrow> (string \<times> attr) list" where
  "jsxAttributes w =
     [(''ref'', StringAttr RCT_WEBVIEWBRIDGE_REF),
      (''key'', StringAttr ''webViewKey''),
      (''javaScriptEnabled'', FlagAttr True)] @
     filter (\<lambda>(k, v). k \<noteq> ''source'') (ownProps (props w)) @
     [(''source'', ResolvedSource (source (props w))),
      (''style'', StylesAttr (webViewStyles w)),
      (''onLoadingStart'', BoundMethod ''onLoadingStart''),
      (''onLoadingFinish'', BoundMethod ''onLoadingFinish''),
      (''onLoadingError'', BoundMethod ''onLoadingError''),
      (''onChange'', BoundMethod ''onMessage'')]"

text \<open>
  \<^verbatim>\<open>render\<close> returns the element and the effects of the calls it made. The JSX
  refers to neither local of \<^verbatim>\<open>deprecatedAliases\<close>: only the warnings remain.
\<close>

definition render :: "world \<Rightarrow> error + (element \<times> effect list)" where
  "render w =
     (case renderOtherView w of
        Inl e \<Rightarrow> Inl e
      | Inr (otherView', es1) \<Rightarrow>
          (let ((javaScriptEnabled', domStorageEnabled'), es2) = deprecatedAliases (props w)
           in Inr (\<lparr>view_style = styles_container,
                     webView = map_of (rev (jsxAttributes w)),
                     otherView = otherView'\<rparr>,
                   es1 @ es2)))"

subsection \<open>Everything that can happen to an instance\<close>

datatype op =
    ComponentWillMount
  | AttachRef nat
  | Render
  | Unmount
  | Emit string body
  | OnMessage change_event
  | GoForward
  | GoBack
  | Reload
  | SendToBridge string
  | OnLoadingStart event
  | OnLoadingError event
  | OnLoadingFinish event

fun exec :: "op \<Rightarrow> world \<Rightarrow> error + world" where
  "exec ComponentWillMount w = Inr (componentWillMount w)"
| "exec (AttachRef h) w = Inr (attachRef h w)"
| "exec Render w =
     (case render w of Inl e \<Rightarrow> Inl e | Inr (v, es) \<Rightarrow> Inr (emitEffects es w))"
| "exec Unmount w = Inr (unmount w)"
| "exec (Emit name b) w = Inr (emit name b w)"
| "exec (OnMessage ev) w = Inr (onMessage ev w)"
| "exec GoForward w = Inr (goForward w)"
| "exec GoBack w = Inr (goBack w)"
| "exec Reload w = Inr (reload w)"
| "exec (SendToBridge m) w = Inr (sendToBridge m w)"
| "exec (OnLoadingStart ev) w = Inr (onLoadingStart ev w)"
| "exec (OnLoadingError ev) w = Inr (onLoadingError ev w)"
| "exec (OnLoadingFinish ev) w = Inr (onLoadingFinish ev w)"

fun run :: "op list \<Rightarrow> world \<Rightarrow> error + world" where
  "run [] w = Inr w"
| "run (x # xs) w = (case exec x w of Inl e \<Rightarrow> Inl e | Inr w' \<Rightarrow> run xs w')"

subsection \<open>Native load events\<close>

text \<open>
  The three load events of the native view and the handlers the JSX binds to them
  (\<^verbatim>\<open>onLoadingStart\<close>, \<^verbatim>\<open>onLoadingError\<close>, \<^verbatim>\<open>onLoadingFinish\<close>).
\<close>

datatype lifecycle = LoadStart event | LoadError event | LoadFinish event

fun lifecycle_op :: "lifecycle \<Rightarrow> op" where
  "lifecycle_op (LoadStart ev) = OnLoadingStart ev"
| "lifecycle_op (LoadError ev) = OnLoadingError ev"
| "lifecycle_op (LoadFinish ev) = OnLoadingFinish ev"

subsection \<open>Sample inputs\<close>

text \<open>A host that supplies no prop at all, and two native events.\<close>

definition bareProps :: props where
  "bareProps =
     \<lparr>onBridgeMessage = None, onLoadStart = None, onLoad = None, onLoadEnd = None,
      onError = None, onNavigationStateChange = None, renderLoading = None,
      renderError = None, startInLoadingState = None, javaScriptEnabled = None,
      domStorageEnabled = None, javaScriptEnabledAndroid = None,
      domStorageEnabledAndroid = None, style = None, source = None\<rparr>"

definition pageEvent :: event where
  "pageEvent =
     Event \<lparr>url = ''http://example.org/'', title = ''Example'', loading = False,
            canGoBack = False, canGoForward = False, domain = '''', code = 0,
            description = '''', message = ''''\<rparr>"

definition timeoutEvent :: event where
  "timeoutEvent =
     Event \<lparr>url = ''http://example.org/'', title = '''', loading = False,
            canGoBack = False, canGoForward = False, domain = ''NET'', code = - 6,
            description = ''timeout'', message = ''''\<rparr>"

subsection \<open>Notions used to state the properties\<close>

text \<open>The callbacks the host supplied, present or not, in the order of the prop list.\<close>

definition suppliedCallbacks :: "props \<Rightarrow> hostfn option list" where
  "suppliedCallbacks p =
     [onBridgeMessage p, onLoadStart p, onLoad p, onLoadEnd p, onError p,
      onNavigationStateChange p, renderLoading p, renderError p]"

text \<open>
  The payload of the most recently received load error of a history of operations, if
  there was one. This follows the specification's words, not the source.
\<close>

fun lastError :: "op list \<Rightarrow> nativeEvent option" where
  "lastError [] = None"
| "lastError (x # xs) =
     (case lastError xs of
        Some ne \<Rightarrow> Some ne
      | None \<Rightarrow> (case x of OnLoadingError ev \<Rightarrow> Some (nativeEvent ev) | _ \<Rightarrow> None))"

text \<open>The messages that a list of effects sends to \<^verbatim>\<open>console.warn\<close>, in order.\<close>

fun consoleWarnings :: "effect list \<Rightarrow> string list" where
  "consoleWarnings [] = []"
| "consoleWarnings (ConsoleWarn s # es) = s # consoleWarnings es"
| "consoleWarnings (e # es) = consoleWarnings es"

section \<open>Properties\<close>

subsection \<open>What each operation leaves alone\<close>

lemma emitEffects_simps:
  "props (emitEffects es w) = props w"
  "state (emitEffects es w) = state w"
  "listeners (emitEffects es w) = listeners w"
  "refs (emitEffects es w) = refs w"
  "mounted (emitEffects es w) = mounted w"
  "trace (emitEffects es w) = trace w @ es"
  by (simp_all add: emitEffects_def)

lemma emitEffects_twice:
  "emitEffects es2 (emitEffects es1 w) = emitEffects (es1 @ es2) w"
  by (simp add: emitEffects_def)

lemma emitEffects_Nil: "emitEffects [] w = w"
  by (simp add: emitEffects_def)

lemma bridgeMessageListener_eq:
  "bridgeMessageListener b w =
     emitEffects (invoke (onBridgeMessage (props w)) [StringArg (body_message b)]) w"
  by (simp add: bridgeMessageListener_def invoke_def emitEffects_def split: option.splits)

lemma deliver_eq:
  "deliver name b ns w =
     emitEffects
       (concat (map (\<lambda>n. invoke (onBridgeMessage (props w)) [StringArg (body_message b)])
          (filter (\<lambda>n. n = name) ns))) w"
proof (induction ns arbitrary: w)
  case Nil
  show ?case by (simp add: emitEffects_def)
next
  case (Cons n ns)
  show ?case
    by (simp add: Cons.IH bridgeMessageListener_eq emitEffects_simps emitEffects_twice)
qed

lemma emit_eq:
  "emit name b w =
     emitEffects
       (concat (map (\<lambda>n. invoke (onBridgeMessage (props w)) [StringArg (body_message b)])
          (filter (\<lambda>n. n = name) (listeners w)))) w"
  by (simp add: emit_def deliver_eq)

lemma onMessage_eq:
  "onMessage ev w =
     emitEffects
       (case change_nativeEvent ev of
          None \<Rightarrow> []
        | Some ne \<Rightarrow> invoke (onBridgeMessage (props w)) [StringArg (message ne)]) w"
  by (simp add: onMessage_def invoke_def emitEffects_def split: option.splits)

lemma onLoadingStart_eq:
  "onLoadingStart ev w =
     emitEffects
       (invoke (onLoadStart (props w)) [EventArg ev] @
        invoke (onNavigationStateChange (props w)) [NativeEventArg (nativeEvent ev)]) w"
  by (simp add: onLoadingStart_def updateNavigationState_def emitEffects_simps emitEffects_twice)

lemma onLoadingError_eq:
  "onLoadingError ev w =
     (emitEffects
        (invoke (onError (props w)) [EventArg ev] @
         invoke (onLoadEnd (props w)) [EventArg ev]) w)
       \<lparr>state := (state w)\<lparr>lastErrorEvent := Some (nativeEvent ev), viewState := ERROR\<rparr>\<rparr>"
  by (simp add: onLoadingError_def Let_def emitEffects_simps emitEffects_twice)

lemma onLoadingFinish_eq:
  "onLoadingFinish ev w =
     (emitEffects
        (invoke (onLoad (props w)) [EventArg ev] @
         invoke (onLoadEnd (props w)) [EventArg ev] @
         invoke (onNavigationStateChange (props w)) [NativeEventArg (nativeEvent ev)]) w)
       \<lparr>state := (state w)\<lparr>viewState := IDLE\<rparr>\<rparr>"
  by (simp add: onLoadingFinish_def updateNavigationState_def Let_def emitEffects_def)

lemma states_distinct: "IDLE \<noteq> LOADING" "IDLE \<noteq> ERROR" "LOADING \<noteq> ERROR"
  by (simp_all add: IDLE_def LOADING_def ERROR_def)

lemma run_append:
  "run (xs @ ys) w = (case run xs w of Inl e \<Rightarrow> Inl e | Inr w' \<Rightarrow> run ys w')"
  by (induction xs arbitrary: w) (auto split: sum.splits)

lemma exec_props: "exec x w = Inr w' \<Longrightarrow> props w' = props w"
  by (cases x)
     (auto simp: componentWillMount_def attachRef_def unmount_def emit_eq onMessage_eq
        goForward_def goBack_def reload_def sendToBridge_def onLoadingStart_eq
        onLoadingError_eq onLoadingFinish_eq emitEffects_simps Let_def
        split: sum.splits if_splits)

lemma run_props: "run xs w = Inr w' \<Longrightarrow> props w' = props w"
proof (induction xs arbitrary: w)
  case Nil
  then show ?case by simp
next
  case (Cons x xs)
  then show ?case by (auto split: sum.splits dest: exec_props)
qed

subsection \<open>Commands\<close>

text \<open>
  C5. For every message \<open>m\<close>, \<open>sendToBridge m\<close> issues exactly one command to the
  native view handle, with the payload \<open>[m]\<close>, and changes nothing of the instance but
  the trace: the display state and the stored error event are as before. \<open>goBack\<close>,
  \<open>goForward\<close> and \<open>reload\<close> each issue exactly one command with a null payload and
  leave the state alone as well. The model's functions return the instance only: the
  source's methods have no \<open>return\<close>.
\<close>

theorem commands_dispatch_once_and_keep_state:
  "sendToBridge m w =
     w\<lparr>trace := trace w @
        [DispatchViewManagerCommand (refs w RCT_WEBVIEWBRIDGE_REF) CmdSendToBridge
           (Some [StringArg m])]\<rparr>
   \<and> state (sendToBridge m w) = state w
   \<and> goBack w =
     w\<lparr>trace := trace w @
        [DispatchViewManagerCommand (refs w RCT_WEBVIEWBRIDGE_REF) CmdGoBack None]\<rparr>
   \<and> state (goBack w) = state w
   \<and> goForward w =
     w\<lparr>trace := trace w @
        [DispatchViewManagerCommand (refs w RCT_WEBVIEWBRIDGE_REF) CmdGoForward None]\<rparr>
   \<and> state (goForward w) = state w
   \<and> reload w =
     w\<lparr>trace := trace w @
        [DispatchViewManagerCommand (refs w RCT_WEBVIEWBRIDGE_REF) CmdReload None]\<rparr>
   \<and> state (reload w) = state w"
  by (simp add: sendToBridge_def goBack_def goForward_def reload_def emitEffects_def
      getWebViewBridgeHandle_def)

subsection \<open>Load events\<close>

lemma run_lifecycle:
  "\<exists>w'. run (map lifecycle_op evs) w = Inr w' \<and> props w' = props w"
proof (induction evs arbitrary: w)
  case Nil
  show ?case by simp
next
  case (Cons ev evs)
  obtain w1 where w1: "exec (lifecycle_op ev) w = Inr w1"
    by (cases ev) simp_all
  have "props w1 = props w"
    using w1 by (rule exec_props)
  with Cons.IH [of w1] w1 show ?case by auto
qed

text \<open>
  C2. For every sequence of native load events, from any instance, the display state
  after the sequence is given by the last event and the table of section 4.1: a load
  start leaves the state as it was and calls \<open>onLoadStart\<close>, then
  \<open>onNavigationStateChange\<close> with the navigation snapshot; a load error sets the state
  to ERROR, stores the event's payload and calls \<open>onError\<close> and \<open>onLoadEnd\<close>; a load
  finish sets the state to IDLE, calls \<open>onLoad\<close> and \<open>onLoadEnd\<close> and forwards the
  navigation snapshot. Each callback the host supplied is called once with the event
  (the navigation callback with the event's payload), in this order; a callback the
  host did not supply is not called.
\<close>

theorem load_events_follow_transition_table:
  "\<exists>w1 w2.
     run (map lifecycle_op evs) w = Inr w1 \<and>
     run (map lifecycle_op (evs @ [ev])) w = Inr w2 \<and>
     (case ev of
        LoadStart e \<Rightarrow>
          state w2 = state w1 \<and>
          trace w2 = trace w1 @
            (case onLoadStart (props w) of
               None \<Rightarrow> []
             | Some f \<Rightarrow> [Invoke f [EventArg e]]) @
            (case onNavigationStateChange (props w) of
               None \<Rightarrow> []
             | Some f \<Rightarrow> [Invoke f [NativeEventArg (nativeEvent e)]])
      | LoadError e \<Rightarrow>
          viewState (state w2) = ERROR \<and>
          lastErrorEvent (state w2) = Some (nativeEvent e) \<and>
          trace w2 = trace w1 @
            (case onError (props w) of
               None \<Rightarrow> []
             | Some f \<Rightarrow> [Invoke f [EventArg e]]) @
            (case onLoadEnd (props w) of
               None \<Rightarrow> []
             | Some f \<Rightarrow> [Invoke f [EventArg e]])
      | LoadFinish e \<Rightarrow>
          viewState (state w2) = IDLE \<and>
          lastErrorEvent (state w2) = lastErrorEvent (state w1) \<and>
          trace w2 = trace w1 @
            (case onLoad (props w) of
               None \<Rightarrow> []
             | Some f \<Rightarrow> [Invoke f [EventArg e]]) @
            (case onLoadEnd (props w) of
               None \<Rightarrow> []
             | Some f \<Rightarrow> [Invoke f [EventArg e]]) @
            (case onNavigationStateChange (props w) of
               None \<Rightarrow> []
             | Some f \<Rightarrow> [Invoke f [NativeEventArg (nativeEvent e)]]))"
proof -
  obtain w1 where w1: "run (map lifecycle_op evs) w = Inr w1" and p1: "props w1 = props w"
    using run_lifecycle by blast
  have step: "run (map lifecycle_op (evs @ [ev])) w = exec (lifecycle_op ev) w1"
    using w1 by (simp add: run_append split: sum.splits)
  show ?thesis
  proof (cases ev)
    case (LoadStart e)
    then show ?thesis
      using w1 p1 step by (simp add: onLoadingStart_eq emitEffects_simps invoke_def)
  next
    case (LoadError e)
    then show ?thesis
      using w1 p1 step by (simp add: onLoadingError_eq emitEffects_simps invoke_def)
  next
    case (LoadFinish e)
    then show ?thesis
      using w1 p1 step by (simp add: onLoadingFinish_eq emitEffects_simps invoke_def)
  qed
qed

subsection \<open>The props of the native view element\<close>

lemma map_of_entry:
  "map_of (entry k c v) k' = (if k' = k then map_option c v else None)"
  by (simp add: entry_def split: option.splits)

lemma rev_entry: "rev (entry k c v) = entry k c v"
  by (simp add: entry_def split: option.splits)

lemma filter_entry:
  "filter (\<lambda>(k', v'). k' \<noteq> s) (entry k c v) = (if k \<noteq> s then entry k c v else [])"
  by (simp add: entry_def split: option.splits)

lemma jsx_style:
  "map_of (rev (jsxAttributes w)) ''style'' = Some (StylesAttr (webViewStyles w))"
  by (simp add: jsxAttributes_def)


lemma render_eq:
  "render w =
     (case renderOtherView w of
        Inl e \<Rightarrow> Inl e
      | Inr (ov, es1) \<Rightarrow>
          Inr (\<lparr>view_style = styles_container,
                webView = map_of (rev (jsxAttributes w)),
                otherView = ov\<rparr>,
               es1 @ snd (deprecatedAliases (props w))))"
  by (simp add: render_def Let_def split: sum.splits prod.splits)


subsection \<open>Mounting\<close>


subsection \<open>The event relay\<close>

lemma exec_listeners:
  "exec x w = Inr w' \<Longrightarrow> x \<noteq> ComponentWillMount \<Longrightarrow> listeners w' = listeners w"
  by (cases x)
     (auto simp: attachRef_def unmount_def emit_eq onMessage_eq
        goForward_def goBack_def reload_def sendToBridge_def onLoadingStart_eq
        onLoadingError_eq onLoadingFinish_eq emitEffects_simps
        split: sum.splits)

lemma run_listeners:
  "run xs w = Inr w' \<Longrightarrow> ComponentWillMount \<notin> set xs \<Longrightarrow> listeners w' = listeners w"
proof (induction xs arbitrary: w)
  case Nil
  then show ?case by simp
next
  case (Cons x xs)
  then show ?case by (auto split: sum.splits dest: exec_listeners)
qed

lemma listeners_componentWillMount:
  "listeners (componentWillMount w) = listeners w @ [''webViewBridgeMessage'']"
  by (simp add: componentWillMount_def Let_def)

lemma props_componentWillMount: "props (componentWillMount w) = props w"
  by (simp add: componentWillMount_def Let_def)

lemma trace_componentWillMount: "trace (componentWillMount w) = trace w"
  by (simp add: componentWillMount_def Let_def)

lemma emit_single:
  "listeners w = [''webViewBridgeMessage''] \<Longrightarrow>
   emit name b w =
     emitEffects
       (if name = ''webViewBridgeMessage''
        then invoke (onBridgeMessage (props w)) [StringArg (body_message b)] else []) w"
  by (auto simp: emit_eq)

lemma run_emits:
  "listeners w = [''webViewBridgeMessage''] \<Longrightarrow>
   run (map (Emit ''webViewBridgeMessage'') bs) w =
     Inr (emitEffects
            (concat (map (\<lambda>b. invoke (onBridgeMessage (props w)) [StringArg (body_message b)])
               bs)) w)"
proof (induction bs arbitrary: w)
  case Nil
  show ?case by (simp add: emitEffects_Nil)
next
  case (Cons b bs)
  have "listeners (emit ''webViewBridgeMessage'' b w) = [''webViewBridgeMessage'']"
    using Cons.prems by (simp add: emit_single emitEffects_simps)
  from Cons.IH [OF this] show ?case
    using Cons.prems by (simp add: emit_single emitEffects_simps emitEffects_twice)
qed

text \<open>
  C4. Take an instance that was mounted once (constructor, then \<open>componentWillMount\<close>,
  then anything but a second \<open>componentWillMount\<close>) and is mounted. An event that
  arrives on the stream \<open>webViewBridgeMessage\<close> calls the host's \<open>onBridgeMessage\<close>
  with the body's message exactly once, before \<open>emit\<close> returns, when the host supplied
  the callback, and calls nothing when it did not; an event of another name calls
  nothing. For a sequence of events the calls are the messages in delivery order, one
  call per event, none added, dropped, reordered or held back.
\<close>

theorem bridge_events_relayed_once_in_order:
  assumes "run pre (componentWillMount (constructor p)) = Inr w"
    and "ComponentWillMount \<notin> set pre"
    and "mounted w"
  shows "trace (emit name b w) =
           trace w @
           (if name = ''webViewBridgeMessage''
            then (case onBridgeMessage p of
                    None \<Rightarrow> []
                  | Some f \<Rightarrow> [Invoke f [StringArg (body_message b)]])
            else [])
         \<and> (\<exists>w'. run (map (Emit ''webViewBridgeMessage'') bs) w = Inr w' \<and>
               mounted w' \<and>
               trace w' =
                 trace w @
                 (case onBridgeMessage p of
                    None \<Rightarrow> []
                  | Some f \<Rightarrow> map (\<lambda>b. Invoke f [StringArg (body_message b)]) bs))"
proof -
  have l: "listeners w = [''webViewBridgeMessage'']"
    using run_listeners [OF assms(1) assms(2)]
    by (simp add: listeners_componentWillMount constructor_def)
  have p: "props w = p"
    using run_props [OF assms(1)] by (simp add: props_componentWillMount constructor_def)
  have one: "trace (emit name b w) =
           trace w @
           (if name = ''webViewBridgeMessage''
            then (case onBridgeMessage p of
                    None \<Rightarrow> []
                  | Some f \<Rightarrow> [Invoke f [StringArg (body_message b)]])
            else [])"
    using p by (simp add: emit_single [OF l] emitEffects_simps invoke_def)
  have calls: "concat (map (\<lambda>b. invoke (onBridgeMessage p) [StringArg (body_message b)]) bs) =
      (case onBridgeMessage p of
         None \<Rightarrow> []
       | Some f \<Rightarrow> map (\<lambda>b. Invoke f [StringArg (body_message b)]) bs)"
    by (induction bs) (simp_all add: invoke_def split: option.splits)
  have many: "\<exists>w'. run (map (Emit ''webViewBridgeMessage'') bs) w = Inr w' \<and>
               mounted w' \<and>
               trace w' =
                 trace w @
                 (case onBridgeMessage p of
                    None \<Rightarrow> []
                  | Some f \<Rightarrow> map (\<lambda>b. Invoke f [StringArg (body_message b)]) bs)"
    using p assms(3) calls by (simp add: run_emits [OF l] emitEffects_simps)
  from one many show ?thesis by blast
qed

theorem bridge_events_relayed_once_in_order_witness:
  "run [Render, AttachRef 7, OnLoadingFinish pageEvent]
     (componentWillMount (constructor (bareProps\<lparr>onBridgeMessage := Some (HostFn 0)\<rparr>))) =
     Inr (attachRef 7 (componentWillMount
            (constructor (bareProps\<lparr>onBridgeMessage := Some (HostFn 0)\<rparr>))))
   \<and> trace (emit ''webViewBridgeMessage'' (Body ''ping'')
        (attachRef 7 (componentWillMount
            (constructor (bareProps\<lparr>onBridgeMessage := Some (HostFn 0)\<rparr>))))) =
      [Invoke (HostFn 0) [StringArg ''ping'']]"
proof -
  have r: "run [Render, AttachRef 7, OnLoadingFinish pageEvent]
     (componentWillMount (constructor (bareProps\<lparr>onBridgeMessage := Some (HostFn 0)\<rparr>))) =
     Inr (attachRef 7 (componentWillMount
            (constructor (bareProps\<lparr>onBridgeMessage := Some (HostFn 0)\<rparr>))))"
    by (simp add: render_eq renderOtherView_def componentWillMount_def constructor_def
        bareProps_def truthy_def states_distinct deprecatedAliases_def emitEffects_def
        attachRef_def onLoadingFinish_eq invoke_def)
  have n: "ComponentWillMount \<notin> set [Render, AttachRef 7, OnLoadingFinish pageEvent]"
    by simp
  have m: "mounted (attachRef 7 (componentWillMount
            (constructor (bareProps\<lparr>onBridgeMessage := Some (HostFn 0)\<rparr>))))"
    by (simp add: attachRef_def)
  show ?thesis
    using r bridge_events_relayed_once_in_order [OF r n m, of "''webViewBridgeMessage''"
        "Body ''ping''" "[]"]
    by (simp add: bareProps_def attachRef_def trace_componentWillMount constructor_def)
qed

subsection \<open>Unmounting\<close>

text \<open>
  C1, as the code has it. The component never releases the subscription it acquires
  at mount: unmounting leaves the listener registered, so an event that arrives on the
  stream after the unmount still calls the host's \<open>onBridgeMessage\<close> with the
  message, once, when the host supplied the callback.
\<close>

theorem unmount_keeps_subscription:
  "listeners (unmount w) = listeners w
   \<and> \<not> mounted (unmount w)
   \<and> listeners (unmount (attachRef h (componentWillMount (constructor p)))) =
       [''webViewBridgeMessage'']
   \<and> trace (emit ''webViewBridgeMessage'' b
        (unmount (attachRef h (componentWillMount (constructor p))))) =
       (case onBridgeMessage p of
          None \<Rightarrow> []
        | Some f \<Rightarrow> [Invoke f [StringArg (body_message b)]])"
  by (simp add: unmount_def attachRef_def emit_eq emitEffects_simps
      listeners_componentWillMount props_componentWillMount trace_componentWillMount
      constructor_def invoke_def)

text \<open>
  C1 as the specification states it (no call of \<open>onBridgeMessage\<close> after the
  unmount) fails: an instance with an \<open>onBridgeMessage\<close> callback is mounted and
  unmounted, an event arrives, and the callback is called.
\<close>

theorem unmounted_instance_is_still_called:
  "\<not> mounted (unmount (attachRef 7 (componentWillMount
        (constructor (bareProps\<lparr>onBridgeMessage := Some (HostFn 0)\<rparr>)))))
   \<and> trace (unmount (attachRef 7 (componentWillMount
        (constructor (bareProps\<lparr>onBridgeMessage := Some (HostFn 0)\<rparr>))))) = []
   \<and> trace (emit ''webViewBridgeMessage'' (Body ''ping'')
        (unmount (attachRef 7 (componentWillMount
           (constructor (bareProps\<lparr>onBridgeMessage := Some (HostFn 0)\<rparr>)))))) =
       [Invoke (HostFn 0) [StringArg ''ping'']]"
  by (simp add: unmount_def attachRef_def emit_def componentWillMount_def constructor_def
      bareProps_def truthy_def bridgeMessageListener_def emitEffects_def)

subsection \<open>The stored error event\<close>

lemma exec_state:
  "exec x w = Inr w' \<Longrightarrow>
   state w' =
     (case x of
        ComponentWillMount \<Rightarrow>
          (if truthy (startInLoadingState (props w))
           then (state w)\<lparr>viewState := LOADING\<rparr> else state w)
      | OnLoadingError ev \<Rightarrow>
          (state w)\<lparr>lastErrorEvent := Some (nativeEvent ev), viewState := ERROR\<rparr>
      | OnLoadingFinish ev \<Rightarrow> (state w)\<lparr>viewState := IDLE\<rparr>
      | _ \<Rightarrow> state w)"
  by (cases x)
     (auto simp: componentWillMount_def attachRef_def unmount_def emit_eq onMessage_eq
        goForward_def goBack_def reload_def sendToBridge_def onLoadingStart_eq
        onLoadingError_eq onLoadingFinish_eq emitEffects_simps Let_def
        split: sum.splits)

lemma exec_error_event:
  assumes "exec x w = Inr w'"
    and "viewState (state w) = ERROR \<longrightarrow> lastErrorEvent (state w) \<noteq> None"
  shows "viewState (state w') = ERROR \<longrightarrow> lastErrorEvent (state w') \<noteq> None"
  using assms(2) exec_state [OF assms(1)] states_distinct
  by (cases x) (auto split: if_splits)

lemma render_total:
  assumes "viewState (state w) = ERROR \<longrightarrow> lastErrorEvent (state w) \<noteq> None"
  shows "\<exists>v es. render w = Inr (v, es)"
  using assms by (auto simp: render_eq renderOtherView_def split: option.splits)

lemma exec_total:
  assumes "viewState (state w) = ERROR \<longrightarrow> lastErrorEvent (state w) \<noteq> None"
  shows "\<exists>w'. exec x w = Inr w'"
proof (cases x)
  case Render
  then show ?thesis using render_total [OF assms] by auto
qed simp_all

lemma run_total:
  assumes "viewState (state w) = ERROR \<longrightarrow> lastErrorEvent (state w) \<noteq> None"
  shows "\<exists>w'. run xs w = Inr w' \<and>
           (viewState (state w') = ERROR \<longrightarrow> lastErrorEvent (state w') \<noteq> None)"
  using assms
proof (induction xs arbitrary: w)
  case Nil
  then show ?case by simp
next
  case (Cons x xs)
  obtain w1 where w1: "exec x w = Inr w1"
    using exec_total [OF Cons.prems] by blast
  have "viewState (state w1) = ERROR \<longrightarrow> lastErrorEvent (state w1) \<noteq> None"
    using exec_error_event [OF w1 Cons.prems] .
  from Cons.IH [OF this] w1 show ?case by simp
qed

lemma constructor_error_event:
  "viewState (state (constructor p)) = ERROR \<longrightarrow> lastErrorEvent (state (constructor p)) \<noteq> None"
  using states_distinct by (simp add: constructor_def)

text \<open>
  C9. Every operation keeps the invariant: in any state an instance reaches from its
  constructor, a view state of ERROR comes with a stored \<open>lastErrorEvent\<close> (the only
  update that sets ERROR stores the event with it), so \<open>render\<close>, which reads the
  domain, the code and the description of that event, never reads them from null: it
  returns an element.
\<close>

theorem error_state_has_error_event:
  assumes "run xs (constructor p) = Inr w"
  shows "(viewState (state w) = ERROR \<longrightarrow> lastErrorEvent (state w) \<noteq> None)
         \<and> (\<exists>v es. render w = Inr (v, es))"
proof -
  obtain w' where "run xs (constructor p) = Inr w'"
    and inv: "viewState (state w') = ERROR \<longrightarrow> lastErrorEvent (state w') \<noteq> None"
    using run_total [OF constructor_error_event] by blast
  with assms have "w' = w" by simp
  with inv render_total show ?thesis by blast
qed

theorem error_state_has_error_event_witness:
  "run [ComponentWillMount, OnLoadingStart pageEvent, OnLoadingError timeoutEvent]
     (constructor (bareProps\<lparr>renderError := Some (HostFn 2)\<rparr>)) =
     Inr (onLoadingError timeoutEvent
            (componentWillMount (constructor (bareProps\<lparr>renderError := Some (HostFn 2)\<rparr>))))
   \<and> viewState (state (onLoadingError timeoutEvent
        (componentWillMount (constructor (bareProps\<lparr>renderError := Some (HostFn 2)\<rparr>))))) =
      ERROR
   \<and> lastErrorEvent (state (onLoadingError timeoutEvent
        (componentWillMount (constructor (bareProps\<lparr>renderError := Some (HostFn 2)\<rparr>))))) \<noteq>
      None
   \<and> (\<exists>v es. render (onLoadingError timeoutEvent
        (componentWillMount (constructor (bareProps\<lparr>renderError := Some (HostFn 2)\<rparr>)))) =
        Inr (v, es))"
proof -
  have r: "run [ComponentWillMount, OnLoadingStart pageEvent, OnLoadingError timeoutEvent]
     (constructor (bareProps\<lparr>renderError := Some (HostFn 2)\<rparr>)) =
     Inr (onLoadingError timeoutEvent
            (componentWillMount (constructor (bareProps\<lparr>renderError := Some (HostFn 2)\<rparr>))))"
    by (simp add: onLoadingStart_eq componentWillMount_def constructor_def bareProps_def
        truthy_def invoke_def emitEffects_def)
  have e: "viewState (state (onLoadingError timeoutEvent
        (componentWillMount (constructor (bareProps\<lparr>renderError := Some (HostFn 2)\<rparr>))))) =
      ERROR"
    by (simp add: onLoadingError_eq)
  show ?thesis
    using r e error_state_has_error_event [OF r] by simp
qed

lemma exec_lastErrorEvent:
  "exec x w = Inr w' \<Longrightarrow>
   lastErrorEvent (state w') =
     (case x of OnLoadingError ev \<Rightarrow> Some (nativeEvent ev) | _ \<Rightarrow> lastErrorEvent (state w))"
  using exec_state [of x w w'] by (cases x) (auto split: if_splits)

lemma run_lastErrorEvent:
  "run xs w = Inr w' \<Longrightarrow>
   lastErrorEvent (state w') =
     (case lastError xs of None \<Rightarrow> lastErrorEvent (state w) | Some ne \<Rightarrow> Some ne)"
proof (induction xs arbitrary: w)
  case Nil
  then show ?case by simp
next
  case (Cons x xs)
  from Cons.prems obtain w1 where w1: "exec x w = Inr w1" and r: "run xs w1 = Inr w'"
    by (auto split: sum.splits)
  show ?case
    using Cons.IH [OF r] exec_lastErrorEvent [OF w1]
    by (cases x) (auto split: option.splits)
qed

lemma render_ERROR:
  assumes "viewState (state w) = ERROR" and "lastErrorEvent (state w) = Some ne"
  shows "render w =
     Inr (\<lparr>view_style = styles_container,
           webView = map_of (rev (jsxAttributes w)),
           otherView =
             (case renderError (props w) of
                None \<Rightarrow> NoView
              | Some f \<Rightarrow>
                  HostView f [StringArg (domain ne), NumberArg (code ne),
                              StringArg (description ne)])\<rparr>,
          invoke (renderError (props w))
            [StringArg (domain ne), NumberArg (code ne), StringArg (description ne)] @
          snd (deprecatedAliases (props w)))"
  using assms states_distinct
  by (auto simp: render_eq renderOtherView_def invoke_def split: option.splits)

text \<open>
  C7. The state holds one error event at most, and it is the most recent one: after
  any history from the constructor, \<open>lastErrorEvent\<close> is the payload of the last load
  error of the history (a later error replaces an earlier one). Whenever the view state
  is ERROR at render time, \<open>render\<close> calls the host's \<open>renderError\<close>, when there is
  one, with the domain, the code and the description of that most recent error, and
  nothing else of it; the native view gets the hidden style, of height 0, last in its
  style array.
\<close>

theorem last_error_is_kept_and_rendered:
  assumes "run xs (constructor p) = Inr w"
  shows "lastErrorEvent (state w) = lastError xs
         \<and> lastErrorEvent (state (onLoadingError e2 (onLoadingError e1 w))) =
             Some (nativeEvent e2)
         \<and> (viewState (state w) = ERROR \<longrightarrow>
              (\<exists>ne v.
                 lastError xs = Some ne \<and>
                 render w =
                   Inr (v,
                        (case renderError p of
                           None \<Rightarrow> []
                         | Some f \<Rightarrow>
                             [Invoke f [StringArg (domain ne), NumberArg (code ne),
                                        StringArg (description ne)]]) @
                        snd (deprecatedAliases p)) \<and>
                 otherView v =
                   (case renderError p of
                      None \<Rightarrow> NoView
                    | Some f \<Rightarrow>
                        HostView f [StringArg (domain ne), NumberArg (code ne),
                                    StringArg (description ne)]) \<and>
                 webView v ''style'' =
                   Some (StylesAttr [Some styles_container, style p, Some styles_hidden])))
         \<and> styles_hidden = StyleSheet [(''height'', 0), (''flex'', 0)]"
proof -
  have h: "styles_hidden = StyleSheet [(''height'', 0), (''flex'', 0)]"
    by (simp add: styles_hidden_def)
  have p: "props w = p"
    using run_props [OF assms] by (simp add: constructor_def)
  have l: "lastErrorEvent (state w) = lastError xs"
    using run_lastErrorEvent [OF assms] by (simp add: constructor_def split: option.splits)
  have o: "lastErrorEvent (state (onLoadingError e2 (onLoadingError e1 w))) =
             Some (nativeEvent e2)"
    by (simp add: onLoadingError_eq)
  have r: "\<exists>ne v.
                 lastError xs = Some ne \<and>
                 render w =
                   Inr (v,
                        (case renderError p of
                           None \<Rightarrow> []
                         | Some f \<Rightarrow>
                             [Invoke f [StringArg (domain ne), NumberArg (code ne),
                                        StringArg (description ne)]]) @
                        snd (deprecatedAliases p)) \<and>
                 otherView v =
                   (case renderError p of
                      None \<Rightarrow> NoView
                    | Some f \<Rightarrow>
                        HostView f [StringArg (domain ne), NumberArg (code ne),
                                    StringArg (description ne)]) \<and>
                 webView v ''style'' =
                   Some (StylesAttr [Some styles_container, style p, Some styles_hidden])"
    if e: "viewState (state w) = ERROR"
  proof -
    have "lastErrorEvent (state w) \<noteq> None"
      using run_total [OF constructor_error_event, of xs p] assms e by auto
    then obtain ne where ne: "lastErrorEvent (state w) = Some ne" by blast
    show ?thesis
      using ne l p e render_ERROR [OF e ne]
      by (simp add: jsx_style webViewStyles_def invoke_def split: option.splits)
  qed
  from l o r h show ?thesis by blast
qed

theorem last_error_is_kept_and_rendered_witness:
  "run [ComponentWillMount, OnLoadingError pageEvent, OnLoadingError timeoutEvent]
     (constructor (bareProps\<lparr>renderError := Some (HostFn 3)\<rparr>)) =
     Inr (onLoadingError timeoutEvent (onLoadingError pageEvent
            (componentWillMount (constructor (bareProps\<lparr>renderError := Some (HostFn 3)\<rparr>)))))
   \<and> viewState (state (onLoadingError timeoutEvent (onLoadingError pageEvent
        (componentWillMount (constructor (bareProps\<lparr>renderError := Some (HostFn 3)\<rparr>)))))) =
      ERROR
   \<and> (\<exists>v. render (onLoadingError timeoutEvent (onLoadingError pageEvent
        (componentWillMount (constructor (bareProps\<lparr>renderError := Some (HostFn 3)\<rparr>))))) =
        Inr (v, [Invoke (HostFn 3) [StringArg ''NET'', NumberArg (- 6), StringArg ''timeout'']])
        \<and> otherView v =
            HostView (HostFn 3) [StringArg ''NET'', NumberArg (- 6), StringArg ''timeout''])"
proof -
  have r: "run [ComponentWillMount, OnLoadingError pageEvent, OnLoadingError timeoutEvent]
     (constructor (bareProps\<lparr>renderError := Some (HostFn 3)\<rparr>)) =
     Inr (onLoadingError timeoutEvent (onLoadingError pageEvent
            (componentWillMount (constructor (bareProps\<lparr>renderError := Some (HostFn 3)\<rparr>)))))"
    by simp
  have e: "viewState (state (onLoadingError timeoutEvent (onLoadingError pageEvent
        (componentWillMount (constructor (bareProps\<lparr>renderError := Some (HostFn 3)\<rparr>)))))) =
      ERROR"
    by (simp add: onLoadingError_eq)
  have d: "snd (deprecatedAliases (bareProps\<lparr>renderError := Some (HostFn 3)\<rparr>)) = []"
    by (simp add: deprecatedAliases_def bareProps_def truthy_def)
  have n: "nativeEvent timeoutEvent =
      \<lparr>url = ''http://example.org/'', title = '''', loading = False,
       canGoBack = False, canGoForward = False, domain = ''NET'', code = - 6,
       description = ''timeout'', message = ''''\<rparr>"
    by (simp add: timeoutEvent_def)
  have x: "lastError [ComponentWillMount, OnLoadingError pageEvent, OnLoadingError timeoutEvent] =
      Some (nativeEvent timeoutEvent)"
    by simp
  have c: "renderError (bareProps\<lparr>renderError := Some (HostFn 3)\<rparr>) = Some (HostFn 3)"
    by simp
  from last_error_is_kept_and_rendered [OF r, of pageEvent pageEvent] e
  obtain ne v where "lastError [ComponentWillMount, OnLoadingError pageEvent,
        OnLoadingError timeoutEvent] = Some ne"
    and "render (onLoadingError timeoutEvent (onLoadingError pageEvent
        (componentWillMount (constructor (bareProps\<lparr>renderError := Some (HostFn 3)\<rparr>))))) =
        Inr (v,
             (case renderError (bareProps\<lparr>renderError := Some (HostFn 3)\<rparr>) of
                None \<Rightarrow> []
              | Some f \<Rightarrow>
                  [Invoke f [StringArg (domain ne), NumberArg (code ne),
                             StringArg (description ne)]]) @
             snd (deprecatedAliases (bareProps\<lparr>renderError := Some (HostFn 3)\<rparr>)))"
    and "otherView v =
           (case renderError (bareProps\<lparr>renderError := Some (HostFn 3)\<rparr>) of
              None \<Rightarrow> NoView
            | Some f \<Rightarrow>
                HostView f [StringArg (domain ne), NumberArg (code ne),
                            StringArg (description ne)])"
    by blast
  then have "render (onLoadingError timeoutEvent (onLoadingError pageEvent
        (componentWillMount (constructor (bareProps\<lparr>renderError := Some (HostFn 3)\<rparr>))))) =
        Inr (v, [Invoke (HostFn 3) [StringArg ''NET'', NumberArg (- 6), StringArg ''timeout'']])
        \<and> otherView v =
            HostView (HostFn 3) [StringArg ''NET'', NumberArg (- 6), StringArg ''timeout'']"
    unfolding x c d by (auto simp: n)
  with r e show ?thesis by blast
qed

subsection \<open>Absent callbacks and unexpected states\<close>

lemma set_invoke:
  "e \<in> set (invoke cb args) \<Longrightarrow> \<exists>f. cb = Some f \<and> e = Invoke f args"
  by (auto simp: invoke_def split: option.splits)

lemma render_calls:
  assumes "render w = Inr (v, es)" and "Invoke f args \<in> set es"
  shows "Some f \<in> set (suppliedCallbacks (props w))"
  using assms
  by (auto simp: render_eq renderOtherView_def deprecatedAliases_def suppliedCallbacks_def
      Let_def split: option.splits if_splits)

lemma exec_calls:
  assumes "exec x w = Inr w'" and "Invoke f args \<in> set (trace w')"
  shows "Invoke f args \<in> set (trace w) \<or> Some f \<in> set (suppliedCallbacks (props w))"
proof (cases x)
  case Render
  then show ?thesis
    using assms render_calls [of w]
    by (auto simp: emitEffects_simps split: sum.splits)
next
  case (Emit name b)
  then show ?thesis
    using assms
    by (auto simp: emit_eq emitEffects_simps suppliedCallbacks_def
        split: if_splits dest!: set_invoke)
next
  case (OnMessage ev)
  then show ?thesis
    using assms
    by (auto simp: onMessage_eq emitEffects_simps suppliedCallbacks_def
        split: option.splits dest!: set_invoke)
next
  case (OnLoadingStart ev)
  then show ?thesis
    using assms
    by (auto simp: onLoadingStart_eq emitEffects_simps suppliedCallbacks_def
        dest!: set_invoke)
next
  case (OnLoadingError ev)
  then show ?thesis
    using assms
    by (auto simp: onLoadingError_eq emitEffects_simps suppliedCallbacks_def
        dest!: set_invoke)
next
  case (OnLoadingFinish ev)
  then show ?thesis
    using assms
    by (auto simp: onLoadingFinish_eq emitEffects_simps suppliedCallbacks_def
        dest!: set_invoke)
qed (use assms in \<open>auto simp: componentWillMount_def attachRef_def unmount_def Let_def
       goForward_def goBack_def reload_def sendToBridge_def emitEffects_simps
       split: if_splits\<close>)

lemma run_calls:
  assumes "run xs w = Inr w'" and "Invoke f args \<in> set (trace w')"
  shows "Invoke f args \<in> set (trace w) \<or> Some f \<in> set (suppliedCallbacks (props w))"
  using assms
proof (induction xs arbitrary: w)
  case Nil
  then show ?case by simp
next
  case (Cons x xs)
  from Cons.prems(1) obtain w1 where w1: "exec x w = Inr w1" and r: "run xs w1 = Inr w'"
    by (auto split: sum.splits)
  have "props w1 = props w"
    using w1 by (rule exec_props)
  with Cons.IH [OF r Cons.prems(2)] exec_calls [OF w1] show ?case by auto
qed

lemma render_unexpected:
  assumes "viewState (state w) \<noteq> IDLE" and "viewState (state w) \<noteq> LOADING"
    and "viewState (state w) \<noteq> ERROR"
  shows "render w =
     Inr (\<lparr>view_style = styles_container,
           webView = map_of (rev (jsxAttributes w)),
           otherView = NoView\<rparr>,
          ConsoleError ''RCTWebViewBridge invalid state encountered: undefined'' #
          snd (deprecatedAliases (props w)))"
  using assms by (simp add: render_eq renderOtherView_def)

text \<open>
  C8. No bridge or load event, command or render makes the component raise: every
  history of operations from the constructor runs to its end. A host callback that is
  absent is skipped: every call of a host function in the trace is a call of one of the
  callbacks the host supplied, so a host that supplies none is never called. A view
  state other than IDLE, LOADING and ERROR at render time is logged with
  \<open>console.error\<close>, and \<open>render\<close> still returns its element (the native view,
  unhidden, and no second child) instead of raising.
\<close>

theorem never_raises_and_skips_absent_callbacks:
  "(\<exists>w. run xs (constructor p) = Inr w \<and>
        (\<forall>f args. Invoke f args \<in> set (trace w) \<longrightarrow> Some f \<in> set (suppliedCallbacks p)))
   \<and> (viewState (state w0) \<noteq> IDLE \<and> viewState (state w0) \<noteq> LOADING \<and>
       viewState (state w0) \<noteq> ERROR \<longrightarrow>
       (\<exists>v. render w0 =
              Inr (v, ConsoleError ''RCTWebViewBridge invalid state encountered: undefined'' #
                      snd (deprecatedAliases (props w0))) \<and>
            otherView v = NoView \<and>
            webView v ''style'' =
              Some (StylesAttr [Some styles_container, style (props w0)])))"
proof -
  obtain w where w: "run xs (constructor p) = Inr w"
    using run_total [OF constructor_error_event] by blast
  have "Some f \<in> set (suppliedCallbacks p)" if "Invoke f args \<in> set (trace w)" for f args
    using run_calls [OF w that] by (simp add: constructor_def)
  with w have first: "\<exists>w. run xs (constructor p) = Inr w \<and>
        (\<forall>f args. Invoke f args \<in> set (trace w) \<longrightarrow> Some f \<in> set (suppliedCallbacks p))"
    by blast
  have second: "\<exists>v. render w0 =
              Inr (v, ConsoleError ''RCTWebViewBridge invalid state encountered: undefined'' #
                      snd (deprecatedAliases (props w0))) \<and>
            otherView v = NoView \<and>
            webView v ''style'' =
              Some (StylesAttr [Some styles_container, style (props w0)])"
    if "viewState (state w0) \<noteq> IDLE" "viewState (state w0) \<noteq> LOADING"
      "viewState (state w0) \<noteq> ERROR"
    using that by (simp add: render_unexpected jsx_style webViewStyles_def)
  from first second show ?thesis by blast
qed

theorem never_raises_and_skips_absent_callbacks_witness:
  "(\<exists>w. run [ComponentWillMount, Render, OnLoadingStart pageEvent,
             Emit ''webViewBridgeMessage'' (Body ''ping''), OnLoadingError timeoutEvent,
             Render, OnLoadingFinish pageEvent, OnMessage (ChangeEvent None), Unmount,
             SendToBridge ''late''] (constructor bareProps) = Inr w \<and>
        (\<forall>f args. Invoke f args \<notin> set (trace w)))
   \<and> viewState (state ((constructor bareProps)
        \<lparr>state := \<lparr>viewState = ''BOGUS'', lastErrorEvent = None,
                   state_startInLoadingState = True\<rparr>\<rparr>)) \<noteq> IDLE
   \<and> (\<exists>v. render ((constructor bareProps)
        \<lparr>state := \<lparr>viewState = ''BOGUS'', lastErrorEvent = None,
                   state_startInLoadingState = True\<rparr>\<rparr>) =
          Inr (v, [ConsoleError ''RCTWebViewBridge invalid state encountered: undefined''])
        \<and> otherView v = NoView)"
proof -
  have s: "set (suppliedCallbacks bareProps) = {None}"
    by (simp add: suppliedCallbacks_def bareProps_def)
  have d: "snd (deprecatedAliases bareProps) = []"
    by (simp add: deprecatedAliases_def bareProps_def truthy_def)
  have b: "viewState (state ((constructor bareProps)
        \<lparr>state := \<lparr>viewState = ''BOGUS'', lastErrorEvent = None,
                   state_startInLoadingState = True\<rparr>\<rparr>)) \<noteq> IDLE"
    "viewState (state ((constructor bareProps)
        \<lparr>state := \<lparr>viewState = ''BOGUS'', lastErrorEvent = None,
                   state_startInLoadingState = True\<rparr>\<rparr>)) \<noteq> LOADING"
    "viewState (state ((constructor bareProps)
        \<lparr>state := \<lparr>viewState = ''BOGUS'', lastErrorEvent = None,
                   state_startInLoadingState = True\<rparr>\<rparr>)) \<noteq> ERROR"
    by (simp_all add: IDLE_def LOADING_def ERROR_def)
  have pr: "props ((constructor bareProps)
        \<lparr>state := \<lparr>viewState = ''BOGUS'', lastErrorEvent = None,
                   state_startInLoadingState = True\<rparr>\<rparr>) = bareProps"
    by (simp add: constructor_def)
  show ?thesis
    using b never_raises_and_skips_absent_callbacks
      [of "[ComponentWillMount, Render, OnLoadingStart pageEvent,
             Emit ''webViewBridgeMessage'' (Body ''ping''), OnLoadingError timeoutEvent,
             Render, OnLoadingFinish pageEvent, OnMessage (ChangeEvent None), Unmount,
             SendToBridge ''late'']" bareProps
          "(constructor bareProps)
        \<lparr>state := \<lparr>viewState = ''BOGUS'', lastErrorEvent = None,
                   state_startInLoadingState = True\<rparr>\<rparr>"]
    unfolding s pr d by blast
qed

subsection \<open>Options of the native view\<close>

lemma jsx_javaScriptEnabled:
  "map_of (rev (jsxAttributes w)) ''javaScriptEnabled'' =
     Some (FlagAttr (case javaScriptEnabled (props w) of None \<Rightarrow> True | Some b \<Rightarrow> b))"
  by (simp add: jsxAttributes_def ownProps_def filter_entry rev_entry map_of_entry
      map_add_def split: option.splits)




lemma render_webView:
  "render w = Inr (v, es) \<Longrightarrow> webView v = map_of (rev (jsxAttributes w))"
  by (auto simp: render_eq split: sum.splits)

text \<open>
  C10. The \<open>javaScriptEnabled\<close> option that reaches the native view is \<open>true\<close> by
  default: the element sets it to \<open>true\<close> before the host's props are spread over it,
  so it is \<open>true\<close> whenever the host omits the prop, and it is the host's value
  whenever the host supplies one.
\<close>

theorem javaScriptEnabled_defaults_to_true:
  assumes "render w = Inr (v, es)"
  shows "webView v ''javaScriptEnabled'' =
           Some (FlagAttr (case javaScriptEnabled (props w) of None \<Rightarrow> True | Some b \<Rightarrow> b))
         \<and> take 3 (jsxAttributes w) =
             [(''ref'', StringAttr RCT_WEBVIEWBRIDGE_REF),
              (''key'', StringAttr ''webViewKey''),
              (''javaScriptEnabled'', FlagAttr True)]"
proof -
  have "webView v ''javaScriptEnabled'' =
           Some (FlagAttr (case javaScriptEnabled (props w) of None \<Rightarrow> True | Some b \<Rightarrow> b))"
    using render_webView [OF assms] by (simp add: jsx_javaScriptEnabled)
  moreover have "take 3 (jsxAttributes w) =
             [(''ref'', StringAttr RCT_WEBVIEWBRIDGE_REF),
              (''key'', StringAttr ''webViewKey''),
              (''javaScriptEnabled'', FlagAttr True)]"
    by (simp add: jsxAttributes_def)
  ultimately show ?thesis by simp
qed

theorem javaScriptEnabled_defaults_to_true_witness:
  "(\<exists>v. render (componentWillMount (constructor bareProps)) = Inr (v, []) \<and>
        webView v ''javaScriptEnabled'' = Some (FlagAttr True))
   \<and> (\<exists>v. render (componentWillMount
              (constructor (bareProps\<lparr>javaScriptEnabled := Some False\<rparr>))) = Inr (v, []) \<and>
        webView v ''javaScriptEnabled'' = Some (FlagAttr False))"
proof -
  have a: "render (componentWillMount (constructor bareProps)) =
      Inr (\<lparr>view_style = styles_container,
            webView = map_of (rev (jsxAttributes (componentWillMount (constructor bareProps)))),
            otherView = NoView\<rparr>, [])"
    by (simp add: render_eq renderOtherView_def componentWillMount_def constructor_def
        bareProps_def truthy_def states_distinct deprecatedAliases_def)
  have b: "render (componentWillMount
              (constructor (bareProps\<lparr>javaScriptEnabled := Some False\<rparr>))) =
      Inr (\<lparr>view_style = styles_container,
            webView = map_of (rev (jsxAttributes (componentWillMount
              (constructor (bareProps\<lparr>javaScriptEnabled := Some False\<rparr>))))),
            otherView = NoView\<rparr>, [])"
    by (simp add: render_eq renderOtherView_def componentWillMount_def constructor_def
        bareProps_def truthy_def states_distinct deprecatedAliases_def)
  have pa: "javaScriptEnabled (props (componentWillMount (constructor bareProps))) = None"
    by (simp add: props_componentWillMount constructor_def bareProps_def)
  have pb: "javaScriptEnabled (props (componentWillMount
              (constructor (bareProps\<lparr>javaScriptEnabled := Some False\<rparr>)))) = Some False"
    by (simp add: props_componentWillMount constructor_def)
  show ?thesis
    using javaScriptEnabled_defaults_to_true [OF a] javaScriptEnabled_defaults_to_true [OF b]
      a b
    unfolding pa pb by simp
qed


lemma consoleWarnings_invoke: "consoleWarnings (invoke cb args) = []"
  by (simp add: invoke_def split: option.splits)







end
